theory Spec2Isabelle
  imports Complex_Main "HOL-Library.AList"
begin

section \<open>The document tree of xml.dom.minidom\<close>

text \<open>
  The program reads a tree built by \<^verbatim>\<open>minidom.parse\<close>. The node classes that such a
  tree can hold are the constructors of \<open>node\<close>: the document, elements (tag name,
  attributes, children), character data (a CDATA section is a subclass of Text in minidom
  and behaves like it everywhere in this program), comments, processing instructions and
  the document type. Only \<open>Document\<close> and \<open>Element\<close> have children.
\<close>

datatype node =
    Document "node list"
  | Element string "(string \<times> string) list" "node list"
  | Text string
  | Comment string
  | ProcessingInstruction string string
  | DocumentType string

text \<open>The exceptions that the subscript, attribute and conversion expressions of
  \<^verbatim>\<open>parse_contours\<close> can raise, and the one that the interpreter raises when the
  recursion of \<^verbatim>\<open>traverse_node\<close> goes beyond its recursion limit.\<close>

datatype error = IndexError | AttributeError | ValueError | RecursionError

fun childNodes :: "node \<Rightarrow> node list" where
  "childNodes (Document cs) = cs"
| "childNodes (Element t as cs) = cs"
| "childNodes n = []"

fun is_element :: "node \<Rightarrow> bool" where
  "is_element (Element t as cs) = True"
| "is_element n = False"

text \<open>\<^verbatim>\<open>Element.getAttribute\<close> returns the empty string for an attribute that is not
  there. minidom defines it on elements only; every call of the program is on an element
  node (after \<^verbatim>\<open>keep_element_nodes\<close> or the \<^verbatim>\<open>nodeType\<close> test).\<close>

fun getAttribute :: "node \<Rightarrow> string \<Rightarrow> string" where
  "getAttribute (Element t as cs) name =
     (case map_of as name of None \<Rightarrow> [] | Some v \<Rightarrow> v)"
| "getAttribute n name = []"

text \<open>\<^verbatim>\<open>getElementsByTagName\<close>: the element descendants with the tag name (or all of
  them for \<^verbatim>\<open>"*"\<close>), in document order; the node itself is not among them.\<close>

fun getElementsByTagName :: "node \<Rightarrow> string \<Rightarrow> node list"
  and get_elements_by_tagName_helper :: "node list \<Rightarrow> string \<Rightarrow> node list" where
  "getElementsByTagName (Document cs) name = get_elements_by_tagName_helper cs name"
| "getElementsByTagName (Element t as cs) name = get_elements_by_tagName_helper cs name"
| "getElementsByTagName (Text s) name = []"
| "getElementsByTagName (Comment s) name = []"
| "getElementsByTagName (ProcessingInstruction t s) name = []"
| "getElementsByTagName (DocumentType s) name = []"
| "get_elements_by_tagName_helper [] name = []"
| "get_elements_by_tagName_helper (n # ns) name =
     (case n of
        Element t as cs \<Rightarrow> (if name = ''*'' \<or> t = name then [n] else [])
      | _ \<Rightarrow> [])
     @ getElementsByTagName n name @ get_elements_by_tagName_helper ns name"

text \<open>The attribute \<^verbatim>\<open>data\<close> exists on character data, comments and processing
  instructions; reading it from any other node, or from \<^verbatim>\<open>None\<close>, raises
  AttributeError.\<close>

fun data :: "node \<Rightarrow> error + string" where
  "data (Text s) = Inr s"
| "data (Comment s) = Inr s"
| "data (ProcessingInstruction t s) = Inr s"
| "data n = Inl AttributeError"

definition firstChild_data :: "node \<Rightarrow> error + string" where
  "firstChild_data n =
     (case childNodes n of [] \<Rightarrow> Inl AttributeError | c # cs \<Rightarrow> data c)"

section \<open>The program\<close>

text \<open>
  Python's \<^verbatim>\<open>float\<close> and \<^verbatim>\<open>int\<close> conversions and numpy's division of a float array
  by an integer are not part of the source. They are parameters of the model:
  \<open>pyfloat\<close> and \<open>pyint\<close> return \<open>None\<close> where the conversion raises ValueError,
  \<open>npdiv\<close> divides one float by the integer scale factor, and \<open>'f\<close> is the type of
  floats. The division is taken to return a float for every divisor: numpy returns an
  infinity or a NaN for the divisor zero, with a warning; only for an integer beyond the
  range of the floats does it raise, and such a scale factor is left out of the model.
\<close>

type_synonym 'f point = "'f \<times> 'f"
type_synonym 'f contour = "'f point list"
type_synonym 'f contour_set = "(string \<times> 'f contour) list"
type_synonym 'f catalog = "(string \<times> 'f contour_set) list"

text \<open>A Python dict is an association list in insertion order: \<open>AList.update\<close> replaces
  the value of a key where it stands and appends a new key at the end, \<open>map_of\<close> looks a
  key up, and the dict is false exactly when the list is empty.\<close>

definition keep_element_nodes :: "node list \<Rightarrow> node list" where
  "keep_element_nodes nodes = filter is_element nodes"

text \<open>\<^verbatim>\<open>float(child3.getElementsByTagName(tag)[0].firstChild.data)\<close>\<close>

definition coordinate :: "(string \<Rightarrow> 'f option) \<Rightarrow> node \<Rightarrow> string \<Rightarrow> error + 'f" where
  "coordinate pyfloat child3 tag =
     (case getElementsByTagName child3 tag of
        [] \<Rightarrow> Inl IndexError
      | e # es \<Rightarrow>
          (case firstChild_data e of
             Inl err \<Rightarrow> Inl err
           | Inr s \<Rightarrow> (case pyfloat s of None \<Rightarrow> Inl ValueError | Some v \<Rightarrow> Inr v)))"

text \<open>The body of the loop over the point records: x is read and converted before y.\<close>

definition parse_point :: "(string \<Rightarrow> 'f option) \<Rightarrow> node \<Rightarrow> error + 'f point" where
  "parse_point pyfloat child3 =
     (case coordinate pyfloat child3 ''Point:x'' of
        Inl err \<Rightarrow> Inl err
      | Inr x \<Rightarrow>
          (case coordinate pyfloat child3 ''Point:y'' of
             Inl err \<Rightarrow> Inl err
           | Inr y \<Rightarrow> Inr (x, y)))"

text \<open>The loop \<^verbatim>\<open>for child3 in keep_element_nodes(child2.childNodes)\<close>, appending to
  \<^verbatim>\<open>points\<close>.\<close>

fun points_loop ::
  "(string \<Rightarrow> 'f option) \<Rightarrow> node list \<Rightarrow> 'f point list \<Rightarrow> error + 'f point list" where
  "points_loop pyfloat [] points = Inr points"
| "points_loop pyfloat (child3 # rest) points =
     (case parse_point pyfloat child3 of
        Inl err \<Rightarrow> Inl err
      | Inr p \<Rightarrow> points_loop pyfloat rest (points @ [p]))"

text \<open>\<^verbatim>\<open>int(child2.firstChild.data)\<close>\<close>

definition resolution :: "(string \<Rightarrow> int option) \<Rightarrow> node \<Rightarrow> error + int" where
  "resolution pyint child2 =
     (case firstChild_data child2 of
        Inl err \<Rightarrow> Inl err
      | Inr s \<Rightarrow> (case pyint s of None \<Rightarrow> Inl ValueError | Some n \<Rightarrow> Inr n))"

text \<open>The loop \<^verbatim>\<open>for child2 in keep_element_nodes(child.childNodes)\<close> with its state
  \<^verbatim>\<open>(points, sub)\<close>: both tests are made for every child, in this order.\<close>

fun contour_loop ::
  "(string \<Rightarrow> 'f option) \<Rightarrow> (string \<Rightarrow> int option) \<Rightarrow> node list \<Rightarrow>
     'f point list \<times> int \<Rightarrow> error + 'f point list \<times> int" where
  "contour_loop pyfloat pyint [] st = Inr st"
| "contour_loop pyfloat pyint (child2 # rest) (points, sub) =
     (case (if getAttribute child2 ''Hash:key'' = ''Points''
            then points_loop pyfloat (keep_element_nodes (childNodes child2)) points
            else Inr points) of
        Inl err \<Rightarrow> Inl err
      | Inr points' \<Rightarrow>
          (case (if getAttribute child2 ''Hash:key'' = ''SubpixelResolution''
                 then resolution pyint child2
                 else Inr sub) of
             Inl err \<Rightarrow> Inl err
           | Inr sub' \<Rightarrow> contour_loop pyfloat pyint rest (points', sub')))"

text \<open>\<^verbatim>\<open>np.array(points) / sub\<close>\<close>

definition scale :: "('f \<Rightarrow> int \<Rightarrow> 'f) \<Rightarrow> 'f point list \<Rightarrow> int \<Rightarrow> 'f contour" where
  "scale npdiv points sub = map (\<lambda>(x, y). (npdiv x sub, npdiv y sub)) points"

text \<open>The body of the loop over the children of the Contours node: the name and the
  scaled points of one contour.\<close>

definition parse_contour ::
  "(string \<Rightarrow> 'f option) \<Rightarrow> (string \<Rightarrow> int option) \<Rightarrow> ('f \<Rightarrow> int \<Rightarrow> 'f) \<Rightarrow> node \<Rightarrow>
     error + string \<times> 'f contour" where
  "parse_contour pyfloat pyint npdiv child =
     (case contour_loop pyfloat pyint (keep_element_nodes (childNodes child)) ([], 1) of
        Inl err \<Rightarrow> Inl err
      | Inr (points, sub) \<Rightarrow>
          Inr (getAttribute child ''Hash:key'', scale npdiv points sub))"

fun contours_loop ::
  "(string \<Rightarrow> 'f option) \<Rightarrow> (string \<Rightarrow> int option) \<Rightarrow> ('f \<Rightarrow> int \<Rightarrow> 'f) \<Rightarrow> node list \<Rightarrow>
     'f contour_set \<Rightarrow> error + 'f contour_set" where
  "contours_loop pyfloat pyint npdiv [] contours = Inr contours"
| "contours_loop pyfloat pyint npdiv (child # rest) contours =
     (case parse_contour pyfloat pyint npdiv child of
        Inl err \<Rightarrow> Inl err
      | Inr (contour_name, points) \<Rightarrow>
          contours_loop pyfloat pyint npdiv rest
            (AList.update contour_name points contours))"

definition parse_contours ::
  "(string \<Rightarrow> 'f option) \<Rightarrow> (string \<Rightarrow> int option) \<Rightarrow> ('f \<Rightarrow> int \<Rightarrow> 'f) \<Rightarrow> node \<Rightarrow>
     error + 'f contour_set" where
  "parse_contours pyfloat pyint npdiv node =
     contours_loop pyfloat pyint npdiv (keep_element_nodes (childNodes node)) []"

text \<open>The loop \<^verbatim>\<open>for child3 in keep_element_nodes(child2.childNodes)\<close> of
  \<^verbatim>\<open>traverse_node\<close>: \<^verbatim>\<open>if contours\<close> tests that the dict has a key.\<close>

fun image_loop ::
  "(string \<Rightarrow> 'f option) \<Rightarrow> (string \<Rightarrow> int option) \<Rightarrow> ('f \<Rightarrow> int \<Rightarrow> 'f) \<Rightarrow> string \<Rightarrow>
     node list \<Rightarrow> 'f catalog \<Rightarrow> error + 'f catalog" where
  "image_loop pyfloat pyint npdiv uid [] uid_contours = Inr uid_contours"
| "image_loop pyfloat pyint npdiv uid (child3 # rest) uid_contours =
     (if getAttribute child3 ''Hash:key'' = ''Contours''
      then (case parse_contours pyfloat pyint npdiv child3 of
              Inl err \<Rightarrow> Inl err
            | Inr contours \<Rightarrow>
                image_loop pyfloat pyint npdiv uid rest
                  (if contours \<noteq> [] then AList.update uid contours uid_contours
                   else uid_contours))
      else image_loop pyfloat pyint npdiv uid rest uid_contours)"

text \<open>The loop \<^verbatim>\<open>for child2 in keep_element_nodes(child.childNodes)\<close> over the images of
  an ImageStates node.\<close>

fun image_states_loop ::
  "(string \<Rightarrow> 'f option) \<Rightarrow> (string \<Rightarrow> int option) \<Rightarrow> ('f \<Rightarrow> int \<Rightarrow> 'f) \<Rightarrow>
     node list \<Rightarrow> 'f catalog \<Rightarrow> error + 'f catalog" where
  "image_states_loop pyfloat pyint npdiv [] uid_contours = Inr uid_contours"
| "image_states_loop pyfloat pyint npdiv (child2 # rest) uid_contours =
     (case image_loop pyfloat pyint npdiv (getAttribute child2 ''Hash:key'')
             (keep_element_nodes (childNodes child2)) uid_contours of
        Inl err \<Rightarrow> Inl err
      | Inr uid_contours' \<Rightarrow> image_states_loop pyfloat pyint npdiv rest uid_contours')"

text \<open>\<^verbatim>\<open>traverse_node\<close> walks the siblings from \<^verbatim>\<open>node.firstChild\<close> along
  \<^verbatim>\<open>nextSibling\<close> (\<open>traverse_loop\<close>); for each child it first handles the child as an
  ImageStates node, if it is one, and then calls itself on the child, whatever kind of
  node the child is. So every level of the tree is one more nested call, and the
  interpreter raises RecursionError for a call beyond its recursion limit. \<open>limit\<close> is the
  number of nested calls of \<^verbatim>\<open>traverse_node\<close> for which there is room: a call with no
  room left raises, and the calls it makes have room for one less. The frames that the
  calls into the libraries need are not counted.\<close>

fun traverse_node ::
  "(string \<Rightarrow> 'f option) \<Rightarrow> (string \<Rightarrow> int option) \<Rightarrow> ('f \<Rightarrow> int \<Rightarrow> 'f) \<Rightarrow> nat \<Rightarrow>
     node \<Rightarrow> 'f catalog \<Rightarrow> error + 'f catalog"
  and traverse_loop ::
  "(string \<Rightarrow> 'f option) \<Rightarrow> (string \<Rightarrow> int option) \<Rightarrow> ('f \<Rightarrow> int \<Rightarrow> 'f) \<Rightarrow> nat \<Rightarrow>
     node list \<Rightarrow> 'f catalog \<Rightarrow> error + 'f catalog" where
  "traverse_node pyfloat pyint npdiv limit (Document cs) uid_contours =
     (if limit = 0 then Inl RecursionError
      else traverse_loop pyfloat pyint npdiv (limit - 1) cs uid_contours)"
| "traverse_node pyfloat pyint npdiv limit (Element t as cs) uid_contours =
     (if limit = 0 then Inl RecursionError
      else traverse_loop pyfloat pyint npdiv (limit - 1) cs uid_contours)"
| "traverse_node pyfloat pyint npdiv limit (Text s) uid_contours =
     (if limit = 0 then Inl RecursionError else Inr uid_contours)"
| "traverse_node pyfloat pyint npdiv limit (Comment s) uid_contours =
     (if limit = 0 then Inl RecursionError else Inr uid_contours)"
| "traverse_node pyfloat pyint npdiv limit (ProcessingInstruction t s) uid_contours =
     (if limit = 0 then Inl RecursionError else Inr uid_contours)"
| "traverse_node pyfloat pyint npdiv limit (DocumentType s) uid_contours =
     (if limit = 0 then Inl RecursionError else Inr uid_contours)"
| "traverse_loop pyfloat pyint npdiv limit [] uid_contours = Inr uid_contours"
| "traverse_loop pyfloat pyint npdiv limit (child # rest) uid_contours =
     (case (if is_element child \<and> getAttribute child ''Hash:key'' = ''ImageStates''
            then image_states_loop pyfloat pyint npdiv
                   (keep_element_nodes (childNodes child)) uid_contours
            else Inr uid_contours) of
        Inl err \<Rightarrow> Inl err
      | Inr uid_contours' \<Rightarrow>
          (case traverse_node pyfloat pyint npdiv limit child uid_contours' of
             Inl err \<Rightarrow> Inl err
           | Inr uid_contours'' \<Rightarrow>
               traverse_loop pyfloat pyint npdiv limit rest uid_contours''))"

text \<open>\<^verbatim>\<open>parse_file\<close>, from the parsed document on: the files are a map from paths to the
  catalog pickled there. The traversal runs before the output file is opened, so an
  exception leaves the files as they were. The result is the exception, if any, and the
  files. Reading the input and opening the output are taken to succeed; \<open>limit\<close> is the
  room for nested calls of \<^verbatim>\<open>traverse_node\<close> where \<^verbatim>\<open>parse_file\<close> calls it.\<close>

definition parse_file ::
  "(string \<Rightarrow> 'f option) \<Rightarrow> (string \<Rightarrow> int option) \<Rightarrow> ('f \<Rightarrow> int \<Rightarrow> 'f) \<Rightarrow> nat \<Rightarrow>
     node \<Rightarrow> string \<Rightarrow> (string \<rightharpoonup> 'f catalog) \<Rightarrow>
     error option \<times> (string \<rightharpoonup> 'f catalog)" where
  "parse_file pyfloat pyint npdiv limit document coord_file files =
     (case traverse_node pyfloat pyint npdiv limit document [] of
        Inl err \<Rightarrow> (Some err, files)
      | Inr uid_contours \<Rightarrow> (None, files(coord_file \<mapsto> uid_contours)))"

section \<open>What the claims speak of\<close>

text \<open>The key attribute of a node, and its direct element children.\<close>

abbreviation hash_key :: "node \<Rightarrow> string" where
  "hash_key n \<equiv> getAttribute n ''Hash:key''"

abbreviation element_children :: "node \<Rightarrow> node list" where
  "element_children n \<equiv> keep_element_nodes (childNodes n)"

text \<open>All nodes below a node, in document order (the node itself is not among them).\<close>

fun descendants :: "node \<Rightarrow> node list"
  and descendants_list :: "node list \<Rightarrow> node list" where
  "descendants (Document cs) = descendants_list cs"
| "descendants (Element t as cs) = descendants_list cs"
| "descendants (Text s) = []"
| "descendants (Comment s) = []"
| "descendants (ProcessingInstruction t s) = []"
| "descendants (DocumentType s) = []"
| "descendants_list [] = []"
| "descendants_list (n # ns) = n # descendants n @ descendants_list ns"

text \<open>The number of nested calls of \<^verbatim>\<open>traverse_node\<close> that a node needs: one for the
  node itself, and below it as many as the child that needs the most.\<close>

fun nesting :: "node \<Rightarrow> nat"
  and nesting_list :: "node list \<Rightarrow> nat" where
  "nesting (Document cs) = Suc (nesting_list cs)"
| "nesting (Element t as cs) = Suc (nesting_list cs)"
| "nesting (Text s) = Suc 0"
| "nesting (Comment s) = Suc 0"
| "nesting (ProcessingInstruction t s) = Suc 0"
| "nesting (DocumentType s) = Suc 0"
| "nesting_list [] = 0"
| "nesting_list (n # ns) = max (nesting n) (nesting_list ns)"

text \<open>The point records of a contour: the direct element children of its children keyed
  Points, in document order.\<close>

definition point_records :: "node \<Rightarrow> node list" where
  "point_records child =
     concat (map element_children
       (filter (\<lambda>c. hash_key c = ''Points'') (element_children child)))"

text \<open>The scale factor of a contour: the integer of its child keyed SubpixelResolution
  (the last one in document order, should there be several), and 1 without such a child.\<close>

definition scale_factor :: "(string \<Rightarrow> int option) \<Rightarrow> node \<Rightarrow> error + int" where
  "scale_factor pyint child =
     (case filter (\<lambda>c. hash_key c = ''SubpixelResolution'') (element_children child) of
        [] \<Rightarrow> Inr 1
      | c # cs \<Rightarrow> resolution pyint (last (c # cs)))"

text \<open>The Contours nodes of the images of an ImageStates node, each with the UID of its
  image.\<close>

definition image_pairs :: "node \<Rightarrow> (string \<times> node) list" where
  "image_pairs states =
     concat (map (\<lambda>image. map (\<lambda>c. (hash_key image, c))
                    (filter (\<lambda>c. hash_key c = ''Contours'') (element_children image)))
       (element_children states))"

text \<open>The Contours nodes in the order in which \<open>traverse_node\<close> extracts them: for each
  child, those of the child as an ImageStates node come before those found below the
  child.\<close>

fun visits :: "node \<Rightarrow> (string \<times> node) list"
  and visits_list :: "node list \<Rightarrow> (string \<times> node) list" where
  "visits (Document cs) = visits_list cs"
| "visits (Element t as cs) = visits_list cs"
| "visits (Text s) = []"
| "visits (Comment s) = []"
| "visits (ProcessingInstruction t s) = []"
| "visits (DocumentType s) = []"
| "visits_list [] = []"
| "visits_list (n # ns) =
     (if is_element n \<and> hash_key n = ''ImageStates'' then image_pairs n else [])
     @ visits n @ visits_list ns"

text \<open>One extraction and its insertion into the catalog, and a sequence of them.\<close>

definition insert_contours ::
  "(string \<Rightarrow> 'f option) \<Rightarrow> (string \<Rightarrow> int option) \<Rightarrow> ('f \<Rightarrow> int \<Rightarrow> 'f) \<Rightarrow>
     string \<times> node \<Rightarrow> 'f catalog \<Rightarrow> error + 'f catalog" where
  "insert_contours pf pn dv p cat =
     (case parse_contours pf pn dv (snd p) of
        Inl e \<Rightarrow> Inl e
      | Inr cs \<Rightarrow> Inr (if cs \<noteq> [] then AList.update (fst p) cs cat else cat))"

fun insert_all ::
  "(string \<Rightarrow> 'f option) \<Rightarrow> (string \<Rightarrow> int option) \<Rightarrow> ('f \<Rightarrow> int \<Rightarrow> 'f) \<Rightarrow>
     (string \<times> node) list \<Rightarrow> 'f catalog \<Rightarrow> error + 'f catalog" where
  "insert_all pf pn dv [] cat = Inr cat"
| "insert_all pf pn dv (p # ps) cat =
     (case insert_contours pf pn dv p cat of
        Inl e \<Rightarrow> Inl e
      | Inr cat' \<Rightarrow> insert_all pf pn dv ps cat')"

text \<open>\<open>extracted document uid contours\<close>: the node \<open>contours\<close> is keyed Contours and is a
  direct element child of an image with this UID, itself a direct element child of an
  element keyed ImageStates somewhere below the document node.\<close>

definition extracted :: "node \<Rightarrow> string \<Rightarrow> node \<Rightarrow> bool" where
  "extracted document uid contours \<longleftrightarrow>
     (\<exists>states \<in> set (descendants document).
        is_element states \<and> hash_key states = ''ImageStates'' \<and>
        (\<exists>image \<in> set (element_children states).
           hash_key image = uid \<and>
           contours \<in> set (element_children image) \<and> hash_key contours = ''Contours''))"

text \<open>The same Contours nodes, with the UIDs of their images, in document order. The
  walk carries whether the parent is an ImageStates element and, if the parent is an image
  of such an element, its UID.\<close>

fun document_order_below :: "bool \<Rightarrow> string option \<Rightarrow> node \<Rightarrow> (string \<times> node) list"
  and document_order_list :: "bool \<Rightarrow> string option \<Rightarrow> node list \<Rightarrow> (string \<times> node) list" where
  "document_order_below in_states img (Document cs) = document_order_list in_states img cs"
| "document_order_below in_states img (Element t as cs) =
     document_order_list in_states img cs"
| "document_order_below in_states img (Text s) = []"
| "document_order_below in_states img (Comment s) = []"
| "document_order_below in_states img (ProcessingInstruction t s) = []"
| "document_order_below in_states img (DocumentType s) = []"
| "document_order_list in_states img [] = []"
| "document_order_list in_states img (c # rest) =
     (case img of
        Some uid \<Rightarrow> if is_element c \<and> hash_key c = ''Contours'' then [(uid, c)] else []
      | None \<Rightarrow> [])
     @ document_order_below (is_element c \<and> hash_key c = ''ImageStates'')
         (if in_states \<and> is_element c then Some (hash_key c) else None) c
     @ document_order_list in_states img rest"

definition document_order :: "node \<Rightarrow> (string \<times> node) list" where
  "document_order document = document_order_below False None document"

text \<open>An ImageStates element, and a document in which one lies below another.\<close>

definition is_states :: "node \<Rightarrow> bool" where
  "is_states n \<longleftrightarrow> is_element n \<and> hash_key n = ''ImageStates''"

definition nested_states :: "node \<Rightarrow> bool" where
  "nested_states document \<longleftrightarrow>
     (\<exists>s \<in> set (descendants document). is_states s \<and>
        (\<exists>s' \<in> set (descendants s). is_states s'))"

text \<open>A point record is malformed when it has no descendant element with the tag
  Point:x, or none with the tag Point:y, or the first such element has no text: it has no
  child, or its first child is an element.\<close>

definition lacks_coordinate :: "node \<Rightarrow> string \<Rightarrow> bool" where
  "lacks_coordinate record tag =
     (case getElementsByTagName record tag of
        [] \<Rightarrow> True
      | e # es \<Rightarrow> (case childNodes e of [] \<Rightarrow> True | c # cs \<Rightarrow> is_element c))"

definition malformed_record :: "node \<Rightarrow> bool" where
  "malformed_record record \<longleftrightarrow>
     lacks_coordinate record ''Point:x'' \<or> lacks_coordinate record ''Point:y''"

subsection \<open>Conversions and documents for the examples\<close>

text \<open>On strings of decimal digits Python's \<^verbatim>\<open>int\<close> and \<^verbatim>\<open>float\<close> return the number
  written; \<open>sample_int\<close> and \<open>sample_float\<close> are the conversions restricted to such
  strings, with the reals for the floats, and \<open>real_div\<close> is the division of a real by an
  integer. They instantiate the parameters in the examples, where every quotient is exact
  in binary floating point as well.\<close>

definition digit :: "char \<Rightarrow> nat option" where
  "digit c =
     (let n = (of_char c :: nat) in if 48 \<le> n \<and> n \<le> 57 then Some (n - 48) else None)"

fun decimal :: "string \<Rightarrow> nat \<Rightarrow> nat option" where
  "decimal [] acc = Some acc"
| "decimal (c # cs) acc =
     (case digit c of None \<Rightarrow> None | Some d \<Rightarrow> decimal cs (10 * acc + d))"

definition sample_int :: "string \<Rightarrow> int option" where
  "sample_int s = (if s = [] then None else map_option int (decimal s 0))"

definition sample_float :: "string \<Rightarrow> real option" where
  "sample_float s = map_option real_of_int (sample_int s)"

definition real_div :: "real \<Rightarrow> int \<Rightarrow> real" where
  "real_div x s = x / real_of_int s"

text \<open>An element with a key and children, and a point record with its two coordinates.\<close>

definition hash :: "string \<Rightarrow> node list \<Rightarrow> node" where
  "hash k cs = Element ''Hash:item'' [(''Hash:key'', k)] cs"

definition point_record :: "string \<Rightarrow> string \<Rightarrow> node" where
  "point_record x y =
     Element ''List:item'' []
       [Element ''Point:x'' [] [Text x], Element ''Point:y'' [] [Text y]]"

text \<open>The two examples of scaling: a contour with the points (10, 20) and (30, 40) and a
  resolution of 2, and a contour with the point (7, 9) and no resolution; and a Contours
  node with both, a text node between them.\<close>

definition scaled_contour :: node where
  "scaled_contour =
     hash ''a'' [hash ''Points'' [point_record ''10'' ''20'', point_record ''30'' ''40''],
                 hash ''SubpixelResolution'' [Text ''2'']]"

definition unscaled_contour :: node where
  "unscaled_contour = hash ''b'' [hash ''Points'' [point_record ''7'' ''9'']]"

definition two_contours :: node where
  "two_contours = hash ''Contours'' [scaled_contour, Text ''x'', unscaled_contour]"

text \<open>A Contours node that names the contour \<open>a\<close> twice.\<close>

definition repeated_name :: node where
  "repeated_name =
     hash ''Contours''
       [hash ''a'' [hash ''Points'' [point_record ''10'' ''20'']],
        hash ''a'' [hash ''Points'' [point_record ''7'' ''9'']]]"

text \<open>A contour with three point records.\<close>

definition three_points :: node where
  "three_points =
     hash ''c'' [hash ''Points''
       [point_record ''3'' ''4'', point_record ''1'' ''2'', point_record ''5'' ''6'']]"

text \<open>A Contours node whose only contour has a resolution and no points.\<close>

definition no_points :: node where
  "no_points = hash ''Contours'' [hash ''c'' [hash ''SubpixelResolution'' [Text ''2'']]]"

text \<open>A contour with two resolutions, 2 and then 5.\<close>

definition two_resolutions :: node where
  "two_resolutions =
     hash ''c'' [hash ''SubpixelResolution'' [Text ''2''],
                 hash ''Points'' [point_record ''10'' ''20''],
                 hash ''SubpixelResolution'' [Text ''5'']]"

text \<open>A document whose only image has one contour, named and without points.\<close>

definition empty_contour_document :: node where
  "empty_contour_document =
     Document [hash ''ImageStates'' [hash ''uid1'' [hash ''Contours'' [hash ''c'' []]]]]"

text \<open>A document with a node keyed Points outside of any ImageStates node; its point
  record has no coordinates.\<close>

definition stray_points_document :: node where
  "stray_points_document =
     Document [Element ''root'' [] [hash ''Points'' [Element ''List:item'' [] []]]]"

text \<open>A document with a point record that has no Point:y, in a contour of an image.\<close>

definition missing_y_document :: node where
  "missing_y_document =
     Document [hash ''ImageStates'' [hash ''uid1'' [hash ''Contours'' [hash ''c''
       [hash ''Points'' [Element ''List:item'' [] [Element ''Point:x'' [] [Text ''1'']]]]]]]]"

text \<open>A Contours node with one contour of one point.\<close>

definition one_point :: "string \<Rightarrow> string \<Rightarrow> string \<Rightarrow> node" where
  "one_point name x y = hash ''Contours'' [hash name [hash ''Points'' [point_record x y]]]"

text \<open>A document with the UID \<open>U\<close> under two ImageStates nodes, the first of them inside
  an image of the second and before the second's image \<open>U\<close>.\<close>

definition nested_document :: node where
  "nested_document =
     Document [hash ''ImageStates''
       [hash ''X'' [hash ''ImageStates'' [hash ''U'' [one_point ''early'' ''1'' ''2'']]],
        hash ''U'' [one_point ''late'' ''3'' ''4'']]]"

text \<open>A document with the UID \<open>U\<close> under two ImageStates nodes side by side.\<close>

definition two_regions_document :: node where
  "two_regions_document =
     Document [Element ''root'' []
       [hash ''ImageStates'' [hash ''U'' [one_point ''first'' ''1'' ''2'']],
        hash ''ImageStates'' [hash ''U'' [one_point ''second'' ''3'' ''4'']]]]"

text \<open>A document without any node keyed ImageStates.\<close>

definition no_states_document :: node where
  "no_states_document =
     Document [Element ''root'' [] [hash ''Contours'' [hash ''c'' []], Text ''t'']]"

text \<open>An element with \<open>n\<close> levels of elements below it, one in the other, none with a
  key.\<close>

fun deep :: "nat \<Rightarrow> node" where
  "deep 0 = Element ''item'' [] []"
| "deep (Suc n) = Element ''item'' [] [deep n]"

text \<open>A document whose image and contour elements have no key attribute.\<close>

definition keyless_document :: node where
  "keyless_document =
     Document [hash ''ImageStates''
       [Element ''Hash:item'' []
          [hash ''Contours''
             [Element ''Hash:item'' [] [hash ''Points'' [point_record ''1'' ''2'']]]]]]"

section \<open>Lemmas about the loops\<close>

lemma points_loop_Inr:
  "points_loop pf recs pts = Inr pts' \<longleftrightarrow>
     (\<exists>raw. map (parse_point pf) recs = map Inr raw \<and> pts' = pts @ raw)"
proof (induction recs arbitrary: pts)
  case Nil
  then show ?case by auto
next
  case (Cons r recs)
  show ?case
  proof (cases "parse_point pf r")
    case (Inl e)
    then show ?thesis by (auto simp: map_eq_Cons_conv)
  next
    case (Inr p)
    then show ?thesis by (auto simp: Cons.IH map_eq_Cons_conv)
  qed
qed

lemma contour_loop_Inr:
  assumes "contour_loop pf pn kids (pts, sub) = Inr (pts', sub')"
  shows "(\<exists>raw. map (parse_point pf)
            (concat (map element_children (filter (\<lambda>c. hash_key c = ''Points'') kids)))
              = map Inr raw \<and> pts' = pts @ raw)
         \<and> (case filter (\<lambda>c. hash_key c = ''SubpixelResolution'') kids of
              [] \<Rightarrow> sub' = sub
            | c # cs \<Rightarrow> resolution pn (last (c # cs)) = Inr sub')"
  using assms
proof (induction kids arbitrary: pts sub)
  case Nil
  then show ?case by simp
next
  case (Cons k kids)
  show ?case
  proof (cases "hash_key k = ''Points''")
    case True
    with Cons.prems obtain pts1 where
      p1: "points_loop pf (element_children k) pts = Inr pts1"
      and rest: "contour_loop pf pn kids (pts1, sub) = Inr (pts', sub')"
      by (auto split: sum.splits)
    from p1 obtain raw1 where r1: "map (parse_point pf) (element_children k) = map Inr raw1"
      "pts1 = pts @ raw1" by (auto simp: points_loop_Inr)
    from Cons.IH[OF rest] r1 True show ?thesis by auto
  next
    case False
    show ?thesis
    proof (cases "hash_key k = ''SubpixelResolution''")
      case True
      with False Cons.prems obtain sub1 where
        s1: "resolution pn k = Inr sub1"
        and rest: "contour_loop pf pn kids (pts, sub1) = Inr (pts', sub')"
        by (auto split: sum.splits)
      from Cons.IH[OF rest] s1 True False show ?thesis
        by (auto split: list.splits)
    next
      case F2: False
      with False Cons.prems have rest: "contour_loop pf pn kids (pts, sub) = Inr (pts', sub')"
        by simp
      from Cons.IH[OF rest] False F2 show ?thesis by auto
    qed
  qed
qed

lemma parse_contour_Inr:
  assumes "parse_contour pf pn dv child = Inr (name, contour)"
  shows "name = hash_key child \<and>
         (\<exists>raw s. map (parse_point pf) (point_records child) = map Inr raw \<and>
            scale_factor pn child = Inr s \<and> contour = scale dv raw s)"
proof -
  from assms obtain pts sub where
    loop: "contour_loop pf pn (element_children child) ([], 1) = Inr (pts, sub)"
    and res: "name = hash_key child" "contour = scale dv pts sub"
    by (auto simp: parse_contour_def split: sum.splits)
  from contour_loop_Inr[OF loop] have
    raw: "map (parse_point pf) (point_records child) = map Inr pts"
    and sub: "scale_factor pn child = Inr sub"
    by (auto simp: point_records_def scale_factor_def split: list.splits)
  from res raw sub show ?thesis by blast
qed

lemma contours_loop_append:
  "contours_loop pf pn dv (xs @ ys) acc =
     (case contours_loop pf pn dv xs acc of
        Inl e \<Rightarrow> Inl e
      | Inr a \<Rightarrow> contours_loop pf pn dv ys a)"
  by (induction xs arbitrary: acc) (auto split: sum.splits)

lemma contours_loop_other:
  assumes "contours_loop pf pn dv xs acc = Inr cs"
    and "\<forall>c \<in> set xs. hash_key c \<noteq> k"
  shows "map_of cs k = map_of acc k"
  using assms
proof (induction xs arbitrary: acc)
  case Nil
  then show ?case by simp
next
  case (Cons x xs)
  from Cons.prems(1) obtain n p where
    px: "parse_contour pf pn dv x = Inr (n, p)"
    and rest: "contours_loop pf pn dv xs (AList.update n p acc) = Inr cs"
    by (auto split: sum.splits)
  from parse_contour_Inr[OF px] have "n = hash_key x" by simp
  with Cons.prems(2) have "n \<noteq> k" by auto
  moreover from Cons.IH[OF rest] Cons.prems(2)
  have "map_of cs k = map_of (AList.update n p acc) k" by simp
  ultimately show ?case by (simp add: update_conv')
qed

lemma contours_loop_last:
  assumes "contours_loop pf pn dv (pre @ c # post) acc = Inr cs"
    and "\<forall>c' \<in> set post. hash_key c' \<noteq> hash_key c"
  shows "\<exists>pts. parse_contour pf pn dv c = Inr (hash_key c, pts) \<and>
           map_of cs (hash_key c) = Some pts"
proof -
  from assms(1) obtain a where
    "contours_loop pf pn dv (c # post) a = Inr cs"
    by (auto simp: contours_loop_append split: sum.splits)
  then obtain n p where
    pc: "parse_contour pf pn dv c = Inr (n, p)"
    and rest: "contours_loop pf pn dv post (AList.update n p a) = Inr cs"
    by (auto split: sum.splits)
  from parse_contour_Inr[OF pc] have n: "n = hash_key c" by simp
  from contours_loop_other[OF rest assms(2)]
  have "map_of cs (hash_key c) = Some p" by (simp add: n update_conv')
  with pc n show ?thesis by simp
qed

lemma contours_loop_keys:
  "contours_loop pf pn dv xs acc = Inr cs \<Longrightarrow>
     fst ` set cs = fst ` set acc \<union> hash_key ` set xs"
proof (induction xs arbitrary: acc)
  case Nil
  then show ?case by simp
next
  case (Cons x xs)
  from Cons.prems obtain n p where
    px: "parse_contour pf pn dv x = Inr (n, p)"
    and rest: "contours_loop pf pn dv xs (AList.update n p acc) = Inr cs"
    by (auto split: sum.splits)
  from parse_contour_Inr[OF px] have "n = hash_key x" by simp
  with Cons.IH[OF rest] show ?case by (auto simp: dom_update)
qed

lemma insert_all_append:
  "insert_all pf pn dv (xs @ ys) cat =
     (case insert_all pf pn dv xs cat of
        Inl e \<Rightarrow> Inl e
      | Inr c \<Rightarrow> insert_all pf pn dv ys c)"
  by (induction xs arbitrary: cat) (auto split: sum.splits)

lemma image_loop_insert_all:
  "image_loop pf pn dv uid kids cat =
     insert_all pf pn dv
       (map (\<lambda>c. (uid, c)) (filter (\<lambda>c. hash_key c = ''Contours'') kids)) cat"
  by (induction kids arbitrary: cat)
     (auto simp: insert_contours_def split: sum.splits)

lemma image_states_loop_insert_all:
  "image_states_loop pf pn dv images cat =
     insert_all pf pn dv
       (concat (map (\<lambda>image. map (\<lambda>c. (hash_key image, c))
          (filter (\<lambda>c. hash_key c = ''Contours'') (element_children image))) images)) cat"
  by (induction images arbitrary: cat)
     (auto simp: image_loop_insert_all insert_all_append split: sum.splits)

lemma traverse_within_limit:
  "nesting n \<le> limit \<Longrightarrow>
     traverse_node pf pn dv limit n cat = insert_all pf pn dv (visits n) cat"
  "nesting_list ns \<le> limit \<Longrightarrow>
     traverse_loop pf pn dv limit ns cat = insert_all pf pn dv (visits_list ns) cat"
proof (induction pf pn dv limit n cat and pf pn dv limit ns cat
        rule: traverse_node_traverse_loop.induct)
  case (8 pf pn dv limit child rest cat)
  from "8.prems" have nc: "nesting child \<le> limit" and nr: "nesting_list rest \<le> limit"
    by simp_all
  show ?case
  proof (cases "is_element child \<and> hash_key child = ''ImageStates''")
    case True
    show ?thesis
    proof (cases "image_states_loop pf pn dv (element_children child) cat")
      case (Inl e)
      with True show ?thesis
        by (simp add: insert_all_append image_pairs_def
              image_states_loop_insert_all[symmetric])
    next
      case (Inr cat1)
      with True "8.IH" nc nr show ?thesis
        by (simp add: insert_all_append image_pairs_def
              image_states_loop_insert_all[symmetric] split: sum.splits)
    qed
  next
    case False
    with "8.IH" nc nr show ?thesis
      by (auto simp: insert_all_append split: sum.splits)
  qed
qed auto

lemma traverse_beyond_limit:
  "limit < nesting n \<Longrightarrow> \<exists>e. traverse_node pf pn dv limit n cat = Inl e"
  "limit < nesting_list ns \<Longrightarrow> \<exists>e. traverse_loop pf pn dv limit ns cat = Inl e"
proof (induction pf pn dv limit n cat and pf pn dv limit ns cat
        rule: traverse_node_traverse_loop.induct)
  case (8 pf pn dv limit child rest cat)
  show ?case
  proof (cases "if is_element child \<and> hash_key child = ''ImageStates''
                then image_states_loop pf pn dv (element_children child) cat
                else Inr cat")
    case (Inl e)
    then show ?thesis by simp
  next
    case first: (Inr cat1)
    show ?thesis
    proof (cases "traverse_node pf pn dv limit child cat1")
      case (Inl e)
      with first show ?thesis by simp
    next
      case second: (Inr cat2)
      from "8.IH"(1)[OF first] second have "\<not> limit < nesting child" by auto
      with "8.prems" have "limit < nesting_list rest" by simp
      from "8.IH"(2)[OF first second this] first second show ?thesis by simp
    qed
  qed
qed auto

lemma traverse_Inr:
  assumes "traverse_node pf pn dv limit n cat = Inr cat'"
  shows "insert_all pf pn dv (visits n) cat = Inr cat'"
proof (cases "nesting n \<le> limit")
  case True
  from traverse_within_limit(1)[OF True, of pf pn dv cat] assms show ?thesis by simp
next
  case False
  then have "limit < nesting n" by simp
  from traverse_beyond_limit(1)[OF this, of pf pn dv cat] assms show ?thesis by simp
qed

lemma traverse_fail:
  assumes "insert_all pf pn dv (visits n) cat = Inl e"
  shows "\<exists>e'. traverse_node pf pn dv limit n cat = Inl e'"
proof (cases "traverse_node pf pn dv limit n cat")
  case (Inl e')
  then show ?thesis by simp
next
  case (Inr cat')
  from traverse_Inr[OF Inr] assms show ?thesis by simp
qed

lemma traverse_without_states:
  "\<forall>x \<in> set (descendants n). \<not> (is_element x \<and> hash_key x = ''ImageStates'') \<Longrightarrow>
     traverse_node pf pn dv limit n cat =
       (if nesting n \<le> limit then Inr cat else Inl RecursionError)"
  "\<forall>x \<in> set (descendants_list ns). \<not> (is_element x \<and> hash_key x = ''ImageStates'') \<Longrightarrow>
     traverse_loop pf pn dv limit ns cat =
       (if nesting_list ns \<le> limit then Inr cat else Inl RecursionError)"
proof (induction pf pn dv limit n cat and pf pn dv limit ns cat
        rule: traverse_node_traverse_loop.induct)
  case (8 pf pn dv limit child rest cat)
  from "8.prems" have here: "\<not> (is_element child \<and> hash_key child = ''ImageStates'')"
    and below: "\<forall>x \<in> set (descendants child).
                  \<not> (is_element x \<and> hash_key x = ''ImageStates'')"
    and after: "\<forall>x \<in> set (descendants_list rest).
                  \<not> (is_element x \<and> hash_key x = ''ImageStates'')"
    by simp_all
  from here have first:
    "(if is_element child \<and> hash_key child = ''ImageStates''
      then image_states_loop pf pn dv (element_children child) cat
      else Inr cat) = Inr cat"
    by auto
  note child = "8.IH"(1)[OF first below]
  show ?case
  proof (cases "nesting child \<le> limit")
    case True
    with child have c: "traverse_node pf pn dv limit child cat = Inr cat" by simp
    from "8.IH"(2)[OF first c after] first c True show ?thesis by simp
  next
    case False
    with child first show ?thesis by simp
  qed
qed auto

lemma nesting_deep: "nesting (deep n) = Suc n"
  by (induction n) simp_all

lemma descendants_deep:
  "\<forall>x \<in> set (descendants (deep n)). \<not> (is_element x \<and> hash_key x = ''ImageStates'')"
proof (induction n)
  case 0
  show ?case by simp
next
  case (Suc n)
  have "hash_key (deep n) = []" by (cases n) simp_all
  with Suc show ?case by simp
qed

lemma set_image_pairs:
  "set (image_pairs states) =
     {(uid, c). \<exists>image \<in> set (element_children states).
        hash_key image = uid \<and> c \<in> set (element_children image) \<and>
        hash_key c = ''Contours''}"
  by (auto simp: image_pairs_def)

lemma set_visits:
  "set (visits n) =
     (\<Union>s \<in> {s \<in> set (descendants n). is_element s \<and> hash_key s = ''ImageStates''}.
        set (image_pairs s))"
  "set (visits_list ns) =
     (\<Union>s \<in> {s \<in> set (descendants_list ns). is_element s \<and> hash_key s = ''ImageStates''}.
        set (image_pairs s))"
  by (induction n and ns rule: visits_visits_list.induct) auto

lemma visits_extracted: "(uid, c) \<in> set (visits document) \<longleftrightarrow> extracted document uid c"
  by (auto simp: set_visits(1) set_image_pairs extracted_def)

lemma insert_all_other:
  assumes "insert_all pf pn dv ps cat = Inr cat'"
    and "\<forall>p \<in> set ps. fst p = uid \<longrightarrow> parse_contours pf pn dv (snd p) = Inr []"
  shows "map_of cat' uid = map_of cat uid"
  using assms
proof (induction ps arbitrary: cat)
  case Nil
  then show ?case by simp
next
  case (Cons p ps)
  from Cons.prems(1) obtain cs where
    pc: "parse_contours pf pn dv (snd p) = Inr cs"
    and rest: "insert_all pf pn dv ps
                 (if cs \<noteq> [] then AList.update (fst p) cs cat else cat) = Inr cat'"
    by (auto simp: insert_contours_def split: sum.splits)
  from Cons.IH[OF rest] Cons.prems(2)
  have "map_of cat' uid =
          map_of (if cs \<noteq> [] then AList.update (fst p) cs cat else cat) uid"
    by simp
  moreover from Cons.prems(2) pc have "cs \<noteq> [] \<Longrightarrow> fst p \<noteq> uid" by auto
  ultimately show ?case by (auto simp: update_conv')
qed

lemma insert_all_last:
  assumes "insert_all pf pn dv (pre @ (uid, c) # post) cat = Inr cat'"
    and "parse_contours pf pn dv c = Inr cs" and "cs \<noteq> []"
    and "\<forall>p \<in> set post. fst p = uid \<longrightarrow> parse_contours pf pn dv (snd p) = Inr []"
  shows "map_of cat' uid = Some cs"
proof -
  from assms(1) obtain a where
    "insert_all pf pn dv ((uid, c) # post) a = Inr cat'"
    by (auto simp: insert_all_append split: sum.splits)
  with assms(2,3) have rest: "insert_all pf pn dv post (AList.update uid cs a) = Inr cat'"
    by (simp add: insert_contours_def)
  from insert_all_other[OF rest assms(4)] show ?thesis
    by (simp add: update_conv')
qed

lemma insert_all_fail:
  assumes "p \<in> set ps" and "parse_contours pf pn dv (snd p) = Inl e"
  shows "\<exists>e'. insert_all pf pn dv ps cat = Inl e'"
  using assms
  by (induction ps arbitrary: cat) (auto simp: insert_contours_def split: sum.splits)

lemma contours_loop_fail:
  assumes "c \<in> set xs" and "parse_contour pf pn dv c = Inl e"
  shows "\<exists>e'. contours_loop pf pn dv xs acc = Inl e'"
  using assms
  by (induction xs arbitrary: acc) (auto split: sum.splits)

lemma parse_contour_fail:
  assumes "p \<in> set (element_children c)" and "hash_key p = ''Points''"
    and "r \<in> set (element_children p)" and "parse_point pf r = Inl e"
  shows "\<exists>e'. parse_contour pf pn dv c = Inl e'"
proof (cases "parse_contour pf pn dv c")
  case (Inl e')
  then show ?thesis by simp
next
  case (Inr res)
  obtain name contour where "res = (name, contour)" by (cases res)
  with Inr parse_contour_Inr[of pf pn dv c name contour] obtain raw where
    raw: "map (parse_point pf) (point_records c) = map Inr raw" by auto
  from assms(1-3) have "r \<in> set (point_records c)"
    by (auto simp: point_records_def)
  then have "parse_point pf r \<in> set (map (parse_point pf) (point_records c))" by simp
  with raw assms(4) show ?thesis by auto
qed

lemmas sample_defs =
  digit_def sample_int_def sample_float_def real_div_def hash_def point_record_def
  parse_contours_def parse_contour_def keep_element_nodes_def scale_def
  resolution_def firstChild_data_def parse_point_def coordinate_def

lemma contours_loop_all:
  assumes "contours_loop pf pn dv xs acc = Inr cs" and "c \<in> set xs"
  shows "\<exists>p. parse_contour pf pn dv c = Inr (hash_key c, p)"
proof (cases "parse_contour pf pn dv c")
  case (Inl e)
  from contours_loop_fail[OF assms(2) Inl, of acc] assms(1) show ?thesis by auto
next
  case (Inr res)
  obtain n p where "res = (n, p)" by (cases res)
  with Inr parse_contour_Inr[of pf pn dv c n p] show ?thesis by auto
qed

lemma insert_all_keys:
  "insert_all pf pn dv ps cat = Inr cat' \<Longrightarrow>
     fst ` set cat' = fst ` set cat \<union>
       {u. \<exists>c cs. (u, c) \<in> set ps \<and> parse_contours pf pn dv c = Inr cs \<and> cs \<noteq> []}"
proof (induction ps arbitrary: cat)
  case Nil
  then show ?case by simp
next
  case (Cons p ps)
  obtain u c where p: "p = (u, c)" by (cases p)
  show ?case
  proof (cases "parse_contours pf pn dv c")
    case (Inl e)
    with Cons.prems p show ?thesis by (simp add: insert_contours_def)
  next
    case (Inr cs)
    show ?thesis
    proof (cases "cs = []")
      case True
      with Cons.prems p Inr have "insert_all pf pn dv ps cat = Inr cat'"
        by (simp add: insert_contours_def)
      from Cons.IH[OF this] True Inr p show ?thesis by auto
    next
      case False
      with Cons.prems p Inr
      have "insert_all pf pn dv ps (AList.update u cs cat) = Inr cat'"
        by (simp add: insert_contours_def)
      from Cons.IH[OF this] False Inr p show ?thesis by (auto simp: dom_update)
    qed
  qed
qed

lemma coordinate_fail:
  "lacks_coordinate r tag \<Longrightarrow> \<exists>e. coordinate pf r tag = Inl e"
proof -
  have "is_element c \<Longrightarrow> data c = Inl AttributeError" for c
    by (cases c) simp_all
  then show "lacks_coordinate r tag \<Longrightarrow> \<exists>e. coordinate pf r tag = Inl e"
    by (auto simp: lacks_coordinate_def coordinate_def firstChild_data_def split: list.splits)
qed

lemma parse_point_malformed:
  assumes "malformed_record r"
  shows "\<exists>e. parse_point pf r = Inl e"
proof (cases "coordinate pf r ''Point:x''")
  case (Inl e)
  then show ?thesis by (simp add: parse_point_def)
next
  case (Inr x)
  with coordinate_fail[of r "''Point:x''" pf] assms
  have "lacks_coordinate r ''Point:y''" by (auto simp: malformed_record_def)
  from coordinate_fail[OF this, of pf] Inr show ?thesis
    by (auto simp: parse_point_def)
qed

lemma visits_Nil:
  assumes "\<forall>n \<in> set (descendants document).
             \<not> (is_element n \<and> hash_key n = ''ImageStates'')"
  shows "visits document = []"
proof -
  from assms have "set (visits document) = {}" by (auto simp: set_visits(1))
  then show ?thesis by simp
qed

lemma below_childNodes:
  "document_order_below st img n = document_order_list st img (childNodes n)"
  by (cases n) simp_all

lemma descendants_childNodes: "descendants n = descendants_list (childNodes n)"
  by (cases n) simp_all

lemma visits_childNodes: "visits n = visits_list (childNodes n)"
  by (cases n) simp_all

lemma order_clean:
  "\<forall>n \<in> set (descendants_list ns). \<not> is_states n \<Longrightarrow>
     document_order_list False None ns = []"
proof (induction "size_list size ns" arbitrary: ns rule: less_induct)
  case less
  show ?case
  proof (cases ns)
    case Nil
    then show ?thesis by simp
  next
    case (Cons c rest)
    have c: "size_list size (childNodes c) < size_list size ns"
      using Cons by (cases c) auto
    have r: "size_list size rest < size_list size ns" using Cons by simp
    from less.prems Cons have nc: "\<not> is_states c"
      and cc: "\<forall>n \<in> set (descendants_list (childNodes c)). \<not> is_states n"
      and cr: "\<forall>n \<in> set (descendants_list rest). \<not> is_states n"
      by (auto simp: descendants_childNodes[symmetric])
    from less.hyps[OF c cc] less.hyps[OF r cr] nc Cons show ?thesis
      by (simp add: below_childNodes is_states_def[symmetric])
  qed
qed

lemma order_image:
  "\<forall>n \<in> set (descendants_list ns). \<not> is_states n \<Longrightarrow>
     document_order_list False (Some uid) ns =
       map (\<lambda>c. (uid, c)) (filter (\<lambda>c. hash_key c = ''Contours'') (keep_element_nodes ns))"
proof (induction ns)
  case Nil
  then show ?case by (simp add: keep_element_nodes_def)
next
  case (Cons c rest)
  from Cons.prems have nc: "\<not> is_states c"
    and cc: "\<forall>n \<in> set (descendants_list (childNodes c)). \<not> is_states n"
    and cr: "\<forall>n \<in> set (descendants_list rest). \<not> is_states n"
    by (auto simp: descendants_childNodes[symmetric])
  from Cons.IH[OF cr] order_clean[OF cc] nc show ?case
    by (simp add: below_childNodes is_states_def[symmetric] keep_element_nodes_def)
qed

lemma order_states:
  "\<forall>n \<in> set (descendants_list ns). \<not> is_states n \<Longrightarrow>
     document_order_list True None ns =
       concat (map (\<lambda>image. map (\<lambda>c. (hash_key image, c))
                 (filter (\<lambda>c. hash_key c = ''Contours'') (element_children image)))
         (keep_element_nodes ns))"
proof (induction ns)
  case Nil
  then show ?case by (simp add: keep_element_nodes_def)
next
  case (Cons c rest)
  from Cons.prems have nc: "\<not> is_states c"
    and cc: "\<forall>n \<in> set (descendants_list (childNodes c)). \<not> is_states n"
    and cr: "\<forall>n \<in> set (descendants_list rest). \<not> is_states n"
    by (auto simp: descendants_childNodes[symmetric])
  from Cons.IH[OF cr] order_clean[OF cc] order_image[OF cc, of "hash_key c"] nc show ?case
    by (simp add: below_childNodes is_states_def[symmetric] keep_element_nodes_def)
qed

lemma visits_list_clean:
  assumes "\<forall>n \<in> set (descendants_list ns). \<not> is_states n"
  shows "visits_list ns = []"
proof -
  from assms have "set (visits_list ns) = {}"
    by (auto simp: set_visits(2) is_states_def)
  then show ?thesis by simp
qed

lemma visits_document_order_list:
  "\<forall>s \<in> set (descendants_list ns). is_states s \<longrightarrow>
       (\<forall>s' \<in> set (descendants s). \<not> is_states s') \<Longrightarrow>
     visits_list ns = document_order_list False None ns"
proof (induction "size_list size ns" arbitrary: ns rule: less_induct)
  case less
  show ?case
  proof (cases ns)
    case Nil
    then show ?thesis by simp
  next
    case (Cons c rest)
    have c: "size_list size (childNodes c) < size_list size ns"
      using Cons by (cases c) auto
    have r: "size_list size rest < size_list size ns" using Cons by simp
    from less.prems Cons have
      pc: "\<forall>s \<in> set (descendants_list (childNodes c)). is_states s \<longrightarrow>
             (\<forall>s' \<in> set (descendants s). \<not> is_states s')"
      and pr: "\<forall>s \<in> set (descendants_list rest). is_states s \<longrightarrow>
             (\<forall>s' \<in> set (descendants s). \<not> is_states s')"
      and here: "is_states c \<Longrightarrow> \<forall>s' \<in> set (descendants_list (childNodes c)). \<not> is_states s'"
      by (auto simp: descendants_childNodes[symmetric])
    show ?thesis
    proof (cases "is_states c")
      case True
      from order_states[OF here[OF True]] visits_list_clean[OF here[OF True]]
        less.hyps[OF r pr] True Cons
      show ?thesis
        by (simp add: below_childNodes visits_childNodes[of c] is_states_def[symmetric] image_pairs_def)
    next
      case False
      from less.hyps[OF c pc] less.hyps[OF r pr] False Cons show ?thesis
        by (simp add: below_childNodes visits_childNodes[of c] is_states_def[symmetric])
    qed
  qed
qed

lemma visits_document_order:
  assumes "\<not> nested_states document"
  shows "visits document = document_order document"
proof -
  from assms have "\<forall>s \<in> set (descendants_list (childNodes document)). is_states s \<longrightarrow>
       (\<forall>s' \<in> set (descendants s). \<not> is_states s')"
    by (auto simp: nested_states_def descendants_childNodes[symmetric])
  from visits_document_order_list[OF this] show ?thesis
    by (simp add: document_order_def below_childNodes visits_childNodes[of document])
qed

section \<open>The claims\<close>

text \<open>
  C3. Every contour that \<open>parse_contours\<close> processes gets the raw points of its point
  records, each coordinate divided by the scale factor of the contour: the integer of
  its SubpixelResolution child, and 1 without one. On the two examples: the points
  (10, 20) and (30, 40) with the resolution 2 give (5, 10) and (15, 20), and the point
  (7, 9) without a resolution stays (7, 9).
\<close>

theorem contour_is_raw_points_divided_by_scale_factor:
  assumes "parse_contours pyfloat pyint npdiv node = Inr contours"
    and "child \<in> set (element_children node)"
  shows "\<exists>raw s.
           map (parse_point pyfloat) (point_records child) = map Inr raw \<and>
           scale_factor pyint child = Inr s \<and>
           parse_contour pyfloat pyint npdiv child =
             Inr (hash_key child, map (\<lambda>(x, y). (npdiv x s, npdiv y s)) raw)"
proof -
  from assms obtain p where
    p: "parse_contour pyfloat pyint npdiv child = Inr (hash_key child, p)"
    by (auto simp: parse_contours_def dest: contours_loop_all)
  from parse_contour_Inr[OF p] p show ?thesis
    by (auto simp: scale_def)
qed

theorem contour_is_raw_points_divided_by_scale_factor_witness:
  "parse_contours sample_float sample_int real_div two_contours =
     Inr [(''a'', [(5, 10), (15, 20)]), (''b'', [(7, 9)])] \<and>
   scaled_contour \<in> set (element_children two_contours) \<and>
   map (parse_point sample_float) (point_records scaled_contour) =
     map Inr [(10, 20), (30, 40)] \<and>
   scale_factor sample_int scaled_contour = Inr 2 \<and>
   parse_contour sample_float sample_int real_div scaled_contour =
     Inr (''a'', [(5, 10), (15, 20)]) \<and>
   unscaled_contour \<in> set (element_children two_contours) \<and>
   map (parse_point sample_float) (point_records unscaled_contour) = map Inr [(7, 9)] \<and>
   scale_factor sample_int unscaled_contour = Inr 1 \<and>
   parse_contour sample_float sample_int real_div unscaled_contour = Inr (''b'', [(7, 9)])"
proof -
  have h: "parse_contours sample_float sample_int real_div two_contours =
             Inr [(''a'', [(5, 10), (15, 20)]), (''b'', [(7, 9)])]"
    by (simp add: two_contours_def scaled_contour_def unscaled_contour_def sample_defs)
  have m1: "scaled_contour \<in> set (element_children two_contours)"
    by (simp add: two_contours_def scaled_contour_def hash_def keep_element_nodes_def)
  have m2: "unscaled_contour \<in> set (element_children two_contours)"
    by (simp add: two_contours_def unscaled_contour_def hash_def keep_element_nodes_def)
  have r1: "map (parse_point sample_float) (point_records scaled_contour) =
              map Inr [(10, 20), (30, 40)]"
    by (simp add: point_records_def scaled_contour_def sample_defs)
  have r2: "map (parse_point sample_float) (point_records unscaled_contour) =
              map Inr [(7, 9)]"
    by (simp add: point_records_def unscaled_contour_def sample_defs)
  have s1: "scale_factor sample_int scaled_contour = Inr 2"
    by (simp add: scale_factor_def scaled_contour_def sample_defs)
  have s2: "scale_factor sample_int unscaled_contour = Inr 1"
    by (simp add: scale_factor_def unscaled_contour_def sample_defs)
  have k1: "hash_key scaled_contour = ''a''" by (simp add: scaled_contour_def hash_def)
  have k2: "hash_key unscaled_contour = ''b''" by (simp add: unscaled_contour_def hash_def)
  from contour_is_raw_points_divided_by_scale_factor[OF h m1] r1 s1 k1
  have c1: "parse_contour sample_float sample_int real_div scaled_contour =
              Inr (''a'', [(5, 10), (15, 20)])"
    by (auto simp: real_div_def dest!: map_injective[OF _ inj_Inr])
  from contour_is_raw_points_divided_by_scale_factor[OF h m2] r2 s2 k2
  have c2: "parse_contour sample_float sample_int real_div unscaled_contour =
              Inr (''b'', [(7, 9)])"
    by (auto simp: real_div_def dest!: map_injective[OF _ inj_Inr])
  from h m1 r1 s1 c1 m2 r2 s2 c2 show ?thesis by blast
qed


text \<open>
  C1 (as the code has it). The test before the insertion is that the extracted dict has
  a key. So a UID is a key of the final catalog exactly when the extraction of one of its
  Contours nodes returns at least one named contour, with or without points; an image all
  of whose extractions return no contour at all is absent.
\<close>

theorem uid_in_catalog_iff_named_contour:
  assumes "traverse_node pyfloat pyint npdiv limit document [] = Inr catalog"
  shows "uid \<in> fst ` set catalog \<longleftrightarrow>
           (\<exists>contours cs. extracted document uid contours \<and>
              parse_contours pyfloat pyint npdiv contours = Inr cs \<and> cs \<noteq> [])"
proof -
  from assms have "insert_all pyfloat pyint npdiv (visits document) [] = Inr catalog"
    by (rule traverse_Inr)
  from insert_all_keys[OF this] show ?thesis
    by (auto simp: visits_extracted)
qed

theorem uid_in_catalog_iff_named_contour_witness:
  "traverse_node sample_float sample_int real_div 1000 empty_contour_document [] =
     Inr [(''uid1'', [(''c'', [])])] \<and>
   (''uid1'' \<in> fst ` set [(''uid1'', [(''c'', [] :: real point list)])] \<longleftrightarrow>
      (\<exists>contours cs. extracted empty_contour_document ''uid1'' contours \<and>
         parse_contours sample_float sample_int real_div contours = Inr cs \<and> cs \<noteq> []))"
proof -
  have h: "traverse_node sample_float sample_int real_div 1000 empty_contour_document [] =
             Inr [(''uid1'', [(''c'', [])])]"
    by (simp add: empty_contour_document_def sample_defs)
  from uid_in_catalog_iff_named_contour[OF h, of "''uid1''"] h show ?thesis
    by blast
qed

text \<open>
  C1 as it is written fails: the only contour of the only image of this document has no
  points, and the UID of the image is in the catalog.
\<close>

theorem image_with_only_empty_contours_in_catalog:
  "extracted empty_contour_document ''uid1'' (hash ''Contours'' [hash ''c'' []]) \<and>
   parse_contours sample_float sample_int real_div (hash ''Contours'' [hash ''c'' []]) =
     Inr [(''c'', [])] \<and>
   traverse_node sample_float sample_int real_div 1000 empty_contour_document [] =
     Inr [(''uid1'', [(''c'', [])])]"
  by (simp add: empty_contour_document_def extracted_def sample_defs)

text \<open>
  C2 (as the code has it). The point records that the program reads are those of the
  nodes keyed Points among the children of a contour of an extracted Contours node. If
  one of them is malformed, the traversal raises, and \<open>parse_file\<close> returns the exception
  and leaves the files as they were.
\<close>

theorem malformed_record_aborts_parse:
  assumes "extracted document uid contours"
    and "contour \<in> set (element_children contours)"
    and "points \<in> set (element_children contour)"
    and "hash_key points = ''Points''"
    and "r \<in> set (element_children points)"
    and "malformed_record r"
  shows "(\<exists>e. traverse_node pyfloat pyint npdiv limit document catalog = Inl e) \<and>
         (\<exists>e. parse_file pyfloat pyint npdiv limit document coord_file files = (Some e, files))"
proof -
  from parse_point_malformed[OF assms(6)] obtain e1 where
    "parse_point pyfloat r = Inl e1" by blast
  from parse_contour_fail[OF assms(3,4,5) this] obtain e2 where
    "parse_contour pyfloat pyint npdiv contour = Inl e2" by blast
  from contours_loop_fail[OF assms(2) this] obtain e3 where
    e3: "parse_contours pyfloat pyint npdiv contours = Inl e3"
    by (auto simp: parse_contours_def)
  from assms(1) have mem: "(uid, contours) \<in> set (visits document)"
    by (simp add: visits_extracted)
  have fail: "\<exists>e. traverse_node pyfloat pyint npdiv limit document c = Inl e" for c
  proof -
    from insert_all_fail[OF mem, of pyfloat pyint npdiv e3 c] e3 obtain e4 where
      "insert_all pyfloat pyint npdiv (visits document) c = Inl e4" by auto
    then show ?thesis by (rule traverse_fail)
  qed
  from fail[of catalog] fail[of "[]"] show ?thesis
    by (auto simp: parse_file_def)
qed

theorem malformed_record_aborts_parse_witness:
  "extracted missing_y_document ''uid1''
     (hash ''Contours'' [hash ''c''
        [hash ''Points'' [Element ''List:item'' [] [Element ''Point:x'' [] [Text ''1'']]]]]) \<and>
   malformed_record (Element ''List:item'' [] [Element ''Point:x'' [] [Text ''1'']]) \<and>
   (\<exists>e. traverse_node sample_float sample_int real_div 1000 missing_y_document [] = Inl e) \<and>
   (\<exists>e. parse_file sample_float sample_int real_div 1000 missing_y_document ''out'' Map.empty =
           (Some e, Map.empty))"
proof -
  have x: "extracted missing_y_document ''uid1''
     (hash ''Contours'' [hash ''c''
        [hash ''Points'' [Element ''List:item'' [] [Element ''Point:x'' [] [Text ''1'']]]]])"
    by (simp add: missing_y_document_def extracted_def hash_def keep_element_nodes_def)
  have c: "hash ''c''
        [hash ''Points'' [Element ''List:item'' [] [Element ''Point:x'' [] [Text ''1'']]]]
     \<in> set (element_children (hash ''Contours'' [hash ''c''
        [hash ''Points'' [Element ''List:item'' [] [Element ''Point:x'' [] [Text ''1'']]]]]))"
    by (simp add: hash_def keep_element_nodes_def)
  have p: "hash ''Points'' [Element ''List:item'' [] [Element ''Point:x'' [] [Text ''1'']]]
     \<in> set (element_children (hash ''c''
        [hash ''Points'' [Element ''List:item'' [] [Element ''Point:x'' [] [Text ''1'']]]]))"
    by (simp add: hash_def keep_element_nodes_def)
  have k: "hash_key (hash ''Points''
             [Element ''List:item'' [] [Element ''Point:x'' [] [Text ''1'']]]) = ''Points''"
    by (simp add: hash_def)
  have r: "Element ''List:item'' [] [Element ''Point:x'' [] [Text ''1'']]
     \<in> set (element_children (hash ''Points''
          [Element ''List:item'' [] [Element ''Point:x'' [] [Text ''1'']]]))"
    by (simp add: hash_def keep_element_nodes_def)
  have m: "malformed_record (Element ''List:item'' [] [Element ''Point:x'' [] [Text ''1'']])"
    by (simp add: malformed_record_def lacks_coordinate_def)
  from malformed_record_aborts_parse[OF x c p k r m] x m show ?thesis
    by blast
qed

text \<open>
  C2 as it is written fails: a node keyed Points that is not under a contour of an image
  is never read. This document has one, its point record has no coordinate at all, and the
  parse writes the empty catalog.
\<close>

theorem stray_malformed_record_is_ignored:
  "descendants stray_points_document ! 1 = hash ''Points'' [Element ''List:item'' [] []] \<and>
   hash_key (hash ''Points'' [Element ''List:item'' [] []]) = ''Points'' \<and>
   element_children (hash ''Points'' [Element ''List:item'' [] []]) =
     [Element ''List:item'' [] []] \<and>
   getElementsByTagName (Element ''List:item'' [] []) ''Point:x'' = [] \<and>
   parse_file sample_float sample_int real_div 1000 stray_points_document ''out'' Map.empty =
     (None, [''out'' \<mapsto> []])"
  by (simp add: stray_points_document_def parse_file_def hash_def keep_element_nodes_def)


text \<open>
  C4 (as the code has it). In a document where no ImageStates element lies below
  another, the extraction of a UID that comes last in document order among those that
  return a named contour is the entry of the UID in the final catalog, whatever was
  stored for it before.
\<close>

theorem later_occurrence_of_uid_wins:
  assumes "traverse_node pyfloat pyint npdiv limit document catalog = Inr catalog'"
    and "\<not> nested_states document"
    and "document_order document = earlier @ (uid, contours) # later"
    and "parse_contours pyfloat pyint npdiv contours = Inr cs"
    and "cs \<noteq> []"
    and "\<forall>p \<in> set later. fst p = uid \<longrightarrow> parse_contours pyfloat pyint npdiv (snd p) = Inr []"
  shows "map_of catalog' uid = Some cs"
proof -
  from traverse_Inr[OF assms(1)] visits_document_order[OF assms(2)] assms(3)
  have "insert_all pyfloat pyint npdiv (earlier @ (uid, contours) # later) catalog =
          Inr catalog'"
    by simp
  from insert_all_last[OF this assms(4,5,6)] show ?thesis .
qed

theorem later_occurrence_of_uid_wins_witness:
  "traverse_node sample_float sample_int real_div 1000 two_regions_document [] =
     Inr [(''U'', [(''second'', [(3, 4)])])] \<and>
   \<not> nested_states two_regions_document \<and>
   document_order two_regions_document =
     [(''U'', one_point ''first'' ''1'' ''2'')] @
     (''U'', one_point ''second'' ''3'' ''4'') # [] \<and>
   parse_contours sample_float sample_int real_div (one_point ''first'' ''1'' ''2'') =
     Inr [(''first'', [(1, 2)])] \<and>
   parse_contours sample_float sample_int real_div (one_point ''second'' ''3'' ''4'') =
     Inr [(''second'', [(3, 4)])] \<and>
   map_of [(''U'', [(''second'', [(3, 4 :: real) :: real point])])] ''U'' =
     Some [(''second'', [(3, 4)])]"
proof -
  have h: "traverse_node sample_float sample_int real_div 1000 two_regions_document [] =
             Inr [(''U'', [(''second'', [(3, 4)])])]"
    by (simp add: two_regions_document_def one_point_def sample_defs)
  have n: "\<not> nested_states two_regions_document"
    by (simp add: two_regions_document_def one_point_def nested_states_def is_states_def
          hash_def point_record_def)
  have d: "document_order two_regions_document =
     [(''U'', one_point ''first'' ''1'' ''2'')] @
     (''U'', one_point ''second'' ''3'' ''4'') # []"
    by (simp add: two_regions_document_def one_point_def document_order_def hash_def
          point_record_def)
  have p1: "parse_contours sample_float sample_int real_div (one_point ''first'' ''1'' ''2'') =
              Inr [(''first'', [(1, 2)])]"
    by (simp add: one_point_def sample_defs)
  have p: "parse_contours sample_float sample_int real_div (one_point ''second'' ''3'' ''4'') =
             Inr [(''second'', [(3, 4)])]"
    by (simp add: one_point_def sample_defs)
  from later_occurrence_of_uid_wins[OF h n d p] h n d p1 p show ?thesis
    by simp
qed

text \<open>
  C4 as it is written fails where an ImageStates element lies inside an image of
  another: the images of the outer element are handled before the traversal descends.
  Here the Contours node with the contour \<open>late\<close> comes after the one with \<open>early\<close> in
  document order, both under the UID \<open>U\<close> and both with a point, and the catalog keeps
  \<open>early\<close>.
\<close>

theorem nested_earlier_occurrence_wins:
  "document_order nested_document =
     [(''U'', one_point ''early'' ''1'' ''2''), (''U'', one_point ''late'' ''3'' ''4'')] \<and>
   parse_contours sample_float sample_int real_div (one_point ''early'' ''1'' ''2'') =
     Inr [(''early'', [(1, 2)])] \<and>
   parse_contours sample_float sample_int real_div (one_point ''late'' ''3'' ''4'') =
     Inr [(''late'', [(3, 4)])] \<and>
   traverse_node sample_float sample_int real_div 1000 nested_document [] =
     Inr [(''U'', [(''early'', [(1, 2)])])]"
  by (simp add: nested_document_def one_point_def document_order_def sample_defs)

text \<open>
  C5. When several children of a Contours node carry the same name, the returned
  ContourSet maps the name to the points of the last of them.
\<close>

theorem later_contour_of_name_wins:
  assumes "parse_contours pyfloat pyint npdiv node = Inr contours"
    and "element_children node = earlier @ child # later"
    and "\<forall>c \<in> set later. hash_key c \<noteq> hash_key child"
  shows "\<exists>points. parse_contour pyfloat pyint npdiv child = Inr (hash_key child, points) \<and>
           map_of contours (hash_key child) = Some points"
  using assms contours_loop_last[of pyfloat pyint npdiv earlier child later "[]" contours]
  by (simp add: parse_contours_def)

theorem later_contour_of_name_wins_witness:
  "parse_contours sample_float sample_int real_div repeated_name = Inr [(''a'', [(7, 9)])] \<and>
   element_children repeated_name =
     [hash ''a'' [hash ''Points'' [point_record ''10'' ''20'']]] @
     hash ''a'' [hash ''Points'' [point_record ''7'' ''9'']] # [] \<and>
   parse_contour sample_float sample_int real_div
     (hash ''a'' [hash ''Points'' [point_record ''10'' ''20'']]) = Inr (''a'', [(10, 20)]) \<and>
   (\<exists>points. parse_contour sample_float sample_int real_div
        (hash ''a'' [hash ''Points'' [point_record ''7'' ''9'']]) =
          Inr (hash_key (hash ''a'' [hash ''Points'' [point_record ''7'' ''9'']]), points) \<and>
      map_of [(''a'', [(7, 9)])]
        (hash_key (hash ''a'' [hash ''Points'' [point_record ''7'' ''9'']])) = Some points)"
proof -
  have h: "parse_contours sample_float sample_int real_div repeated_name =
             Inr [(''a'', [(7, 9)])]"
    by (simp add: repeated_name_def sample_defs)
  have c: "element_children repeated_name =
     [hash ''a'' [hash ''Points'' [point_record ''10'' ''20'']]] @
     hash ''a'' [hash ''Points'' [point_record ''7'' ''9'']] # []"
    by (simp add: repeated_name_def hash_def keep_element_nodes_def)
  have e: "parse_contour sample_float sample_int real_div
     (hash ''a'' [hash ''Points'' [point_record ''10'' ''20'']]) = Inr (''a'', [(10, 20)])"
    by (simp add: sample_defs)
  from later_contour_of_name_wins[OF h c] h c e show ?thesis
    by simp
qed


text \<open>
  C6. The points of a contour stand in the order of its point records in the document:
  there are as many points as records, and the point at each position is the scaled pair
  of coordinates of the record at that position.
\<close>

theorem points_in_document_order:
  assumes "parse_contour pyfloat pyint npdiv child = Inr (name, contour)"
  shows "length contour = length (point_records child) \<and>
         (\<exists>s. \<forall>i < length contour. \<exists>x y.
            parse_point pyfloat (point_records child ! i) = Inr (x, y) \<and>
            contour ! i = (npdiv x s, npdiv y s))"
proof -
  from parse_contour_Inr[OF assms] obtain raw s where
    raw: "map (parse_point pyfloat) (point_records child) = map Inr raw"
    and contour: "contour = scale npdiv raw s"
    by blast
  from raw have len: "length raw = length (point_records child)"
    by (metis length_map)
  have "\<exists>x y. parse_point pyfloat (point_records child ! i) = Inr (x, y) \<and>
          contour ! i = (npdiv x s, npdiv y s)" if "i < length contour" for i
  proof -
    from that contour have i: "i < length raw" by (simp add: scale_def)
    with len have "map (parse_point pyfloat) (point_records child) ! i =
                     parse_point pyfloat (point_records child ! i)"
      by simp
    with raw i have "parse_point pyfloat (point_records child ! i) = Inr (raw ! i)"
      by simp
    moreover from i contour
    have "contour ! i = (npdiv (fst (raw ! i)) s, npdiv (snd (raw ! i)) s)"
      by (simp add: scale_def case_prod_beta)
    ultimately show ?thesis by (cases "raw ! i") auto
  qed
  with len contour show ?thesis by (auto simp: scale_def)
qed

theorem points_in_document_order_witness:
  "parse_contour sample_float sample_int real_div three_points =
     Inr (''c'', [(3, 4), (1, 2), (5, 6)]) \<and>
   point_records three_points =
     [point_record ''3'' ''4'', point_record ''1'' ''2'', point_record ''5'' ''6''] \<and>
   length [(3, 4), (1, 2), (5, 6 :: real) :: real point] = length (point_records three_points) \<and>
   (\<exists>s. \<forall>i < length [(3, 4), (1, 2), (5, 6 :: real) :: real point]. \<exists>x y.
      parse_point sample_float (point_records three_points ! i) = Inr (x, y) \<and>
      [(3, 4), (1, 2), (5, 6)] ! i = (real_div x s, real_div y s))"
proof -
  have h: "parse_contour sample_float sample_int real_div three_points =
             Inr (''c'', [(3, 4), (1, 2), (5, 6)])"
    by (simp add: three_points_def sample_defs)
  have r: "point_records three_points =
     [point_record ''3'' ''4'', point_record ''1'' ''2'', point_record ''5'' ''6'']"
    by (simp add: three_points_def point_records_def hash_def point_record_def
          keep_element_nodes_def)
  from points_in_document_order[OF h] h r show ?thesis
    by blast
qed

text \<open>
  C7 (as the code has it). On a document without any element keyed ImageStates, and with
  no more levels than there is room for nested calls of \<open>traverse_node\<close>, the traversal
  returns the catalog as it was given, so the empty catalog stays empty, no exception is
  raised and \<open>parse_file\<close> writes the empty catalog.
\<close>

theorem no_image_states_gives_empty_catalog:
  assumes "\<forall>n \<in> set (descendants document).
             \<not> (is_element n \<and> hash_key n = ''ImageStates'')"
    and "nesting document \<le> limit"
  shows "traverse_node pyfloat pyint npdiv limit document catalog = Inr catalog \<and>
         traverse_node pyfloat pyint npdiv limit document [] = Inr [] \<and>
         parse_file pyfloat pyint npdiv limit document coord_file files =
           (None, files(coord_file \<mapsto> []))"
  using traverse_without_states(1)[OF assms(1), of pyfloat pyint npdiv limit] assms(2)
  by (simp add: parse_file_def)

theorem no_image_states_gives_empty_catalog_witness:
  "filter (\<lambda>n. is_element n \<and> hash_key n = ''ImageStates'')
     (descendants no_states_document) = [] \<and>
   nesting no_states_document \<le> 1000 \<and>
   traverse_node sample_float sample_int real_div 1000 no_states_document [] = Inr [] \<and>
   parse_file sample_float sample_int real_div 1000 no_states_document ''out'' Map.empty =
     (None, [''out'' \<mapsto> []])"
proof -
  have h: "\<forall>n \<in> set (descendants no_states_document).
             \<not> (is_element n \<and> hash_key n = ''ImageStates'')"
    by (simp add: no_states_document_def hash_def)
  have d: "nesting no_states_document \<le> 1000"
    by (simp add: no_states_document_def hash_def)
  from h have "filter (\<lambda>n. is_element n \<and> hash_key n = ''ImageStates'')
                 (descendants no_states_document) = []"
    by (simp add: filter_empty_conv)
  with d no_image_states_gives_empty_catalog[OF h d, of sample_float sample_int real_div
         "[]" "''out''" Map.empty]
  show ?thesis by blast
qed

text \<open>
  C7 as it is written fails on a document with more levels than the recursion limit
  leaves room for: every level is a nested call of \<open>traverse_node\<close>. Here 1500 elements
  lie one in the other below the root element, none of them keyed ImageStates, and there
  is room for 1000 nested calls, more than the interpreter's default limit of 1000 frames
  leaves; the traversal raises RecursionError and \<open>parse_file\<close> writes nothing.
\<close>

theorem deep_document_raises_recursion_error:
  "filter (\<lambda>n. is_element n \<and> hash_key n = ''ImageStates'')
     (descendants (Document [deep 1500])) = [] \<and>
   traverse_node sample_float sample_int real_div 1000 (Document [deep 1500]) [] =
     Inl RecursionError \<and>
   parse_file sample_float sample_int real_div 1000 (Document [deep 1500]) ''out'' Map.empty =
     (Some RecursionError, Map.empty)"
proof -
  have k: "hash_key (deep n) = []" for n by (cases n) simp_all
  have no: "\<forall>x \<in> set (descendants (Document [deep 1500])).
              \<not> (is_element x \<and> hash_key x = ''ImageStates'')"
    using descendants_deep[of 1500] by (simp add: k)
  have r: "traverse_node sample_float sample_int real_div 1000 (Document [deep 1500]) [] =
             Inl RecursionError"
    using traverse_without_states(1)[OF no, of sample_float sample_int real_div 1000 "[]"]
    by (simp add: nesting_deep)
  from no have "filter (\<lambda>n. is_element n \<and> hash_key n = ''ImageStates'')
                  (descendants (Document [deep 1500])) = []"
    by (simp only: filter_empty_conv)
  with r show ?thesis by (simp add: parse_file_def)
qed

text \<open>
  C8. A contour without point records does not raise on their account and is put into
  the ContourSet with the empty sequence: its name is a key of the returned set, and the
  value is the empty sequence unless a later contour of the same name replaces it.
\<close>

theorem contour_without_points_is_inserted:
  assumes "parse_contours pyfloat pyint npdiv node = Inr contours"
    and "element_children node = earlier @ child # later"
    and "point_records child = []"
  shows "parse_contour pyfloat pyint npdiv child = Inr (hash_key child, []) \<and>
         hash_key child \<in> fst ` set contours \<and>
         ((\<forall>c \<in> set later. hash_key c \<noteq> hash_key child) \<longrightarrow>
            map_of contours (hash_key child) = Some [])"
proof -
  from assms(1,2) have loop:
    "contours_loop pyfloat pyint npdiv (earlier @ child # later) [] = Inr contours"
    by (simp add: parse_contours_def)
  from contours_loop_all[OF loop, of child] obtain p where
    p: "parse_contour pyfloat pyint npdiv child = Inr (hash_key child, p)" by auto
  from parse_contour_Inr[OF p] assms(3) have "p = []" by (auto simp: scale_def)
  with p have empty: "parse_contour pyfloat pyint npdiv child = Inr (hash_key child, [])"
    by simp
  from contours_loop_keys[OF loop] have key: "hash_key child \<in> fst ` set contours"
    by simp
  have "map_of contours (hash_key child) = Some []"
    if "\<forall>c \<in> set later. hash_key c \<noteq> hash_key child"
    using contours_loop_last[OF loop that] empty by simp
  with empty key show ?thesis by blast
qed

theorem contour_without_points_is_inserted_witness:
  "parse_contours sample_float sample_int real_div no_points = Inr [(''c'', [])] \<and>
   element_children no_points =
     [] @ hash ''c'' [hash ''SubpixelResolution'' [Text ''2'']] # [] \<and>
   point_records (hash ''c'' [hash ''SubpixelResolution'' [Text ''2'']]) = [] \<and>
   parse_contour sample_float sample_int real_div
     (hash ''c'' [hash ''SubpixelResolution'' [Text ''2'']]) = Inr (''c'', []) \<and>
   ''c'' \<in> fst ` set [(''c'', [] :: real point list)] \<and>
   map_of [(''c'', [] :: real point list)] ''c'' = Some []"
proof -
  have h: "parse_contours sample_float sample_int real_div no_points = Inr [(''c'', [])]"
    by (simp add: no_points_def sample_defs)
  have c: "element_children no_points =
     [] @ hash ''c'' [hash ''SubpixelResolution'' [Text ''2'']] # []"
    by (simp add: no_points_def hash_def keep_element_nodes_def)
  have r: "point_records (hash ''c'' [hash ''SubpixelResolution'' [Text ''2'']]) = []"
    by (simp add: point_records_def hash_def keep_element_nodes_def)
  have k: "hash_key (hash ''c'' [hash ''SubpixelResolution'' [Text ''2'']]) = ''c''"
    by (simp add: hash_def)
  from contour_without_points_is_inserted[OF h c r] h c r k show ?thesis
    by simp
qed


text \<open>
  C9. An element without the attribute Hash:key has the empty string as its key. As a
  child of a Contours node it is a contour like any other: its contour is made under the
  empty name, which is then a key of the returned ContourSet. As an image of an
  ImageStates element it is an image like any other: when one of its Contours nodes gives
  a ContourSet with a contour, the empty string is a key of the final catalog.
\<close>

theorem missing_key_is_empty_name:
  assumes "map_of attributes ''Hash:key'' = None"
  shows "hash_key (Element t attributes cs) = [] \<and>
         (\<forall>node contours.
            parse_contours pyfloat pyint npdiv node = Inr contours \<and>
            Element t attributes cs \<in> set (element_children node) \<longrightarrow>
            (\<exists>points. parse_contour pyfloat pyint npdiv (Element t attributes cs) =
                        Inr ([], points)) \<and>
            [] \<in> fst ` set contours) \<and>
         (\<forall>limit document catalog catalog' states contours cset.
            traverse_node pyfloat pyint npdiv limit document catalog = Inr catalog' \<and>
            states \<in> set (descendants document) \<and>
            is_element states \<and> hash_key states = ''ImageStates'' \<and>
            Element t attributes cs \<in> set (element_children states) \<and>
            contours \<in> set (element_children (Element t attributes cs)) \<and>
            hash_key contours = ''Contours'' \<and>
            parse_contours pyfloat pyint npdiv contours = Inr cset \<and> cset \<noteq> [] \<longrightarrow>
            [] \<in> fst ` set catalog')"
proof -
  let ?e = "Element t attributes cs"
  from assms have key: "hash_key ?e = []" by simp
  have contour: "(\<exists>points. parse_contour pyfloat pyint npdiv ?e = Inr ([], points)) \<and>
                 [] \<in> fst ` set contours"
    if "parse_contours pyfloat pyint npdiv node = Inr contours"
      and "?e \<in> set (element_children node)" for node contours
  proof -
    from that(1) have loop:
      "contours_loop pyfloat pyint npdiv (element_children node) [] = Inr contours"
      by (simp add: parse_contours_def)
    from contours_loop_all[OF loop that(2)] contours_loop_keys[OF loop] that(2) key
    show ?thesis by force
  qed
  have image: "[] \<in> fst ` set catalog'"
    if "traverse_node pyfloat pyint npdiv limit document catalog = Inr catalog'"
      and "states \<in> set (descendants document)"
      and "is_element states" and "hash_key states = ''ImageStates''"
      and "?e \<in> set (element_children states)"
      and "contours \<in> set (element_children ?e)"
      and "hash_key contours = ''Contours''"
      and "parse_contours pyfloat pyint npdiv contours = Inr cset" and "cset \<noteq> []"
    for limit document catalog catalog' states contours cset
  proof -
    from that(2-7) key have "extracted document [] contours"
      unfolding extracted_def by blast
    then have "([], contours) \<in> set (visits document)"
      by (simp add: visits_extracted)
    moreover from that(1)
    have "insert_all pyfloat pyint npdiv (visits document) catalog = Inr catalog'"
      by (rule traverse_Inr)
    from insert_all_keys[OF this]
    have "fst ` set catalog' = fst ` set catalog \<union>
       {u. \<exists>c cs. (u, c) \<in> set (visits document) \<and>
          parse_contours pyfloat pyint npdiv c = Inr cs \<and> cs \<noteq> []}" .
    ultimately show ?thesis using that(8,9) by blast
  qed
  from key contour image show ?thesis by blast
qed

theorem missing_key_is_empty_name_witness:
  "map_of ([] :: (string \<times> string) list) ''Hash:key'' = None \<and>
   traverse_node sample_float sample_int real_div 1000 keyless_document [] =
     Inr [([], [([], [(1, 2)])])] \<and>
   hash_key (Element ''Hash:item'' [] [hash ''Points'' [point_record ''1'' ''2'']]) = [] \<and>
   (\<exists>points. parse_contour sample_float sample_int real_div
       (Element ''Hash:item'' [] [hash ''Points'' [point_record ''1'' ''2'']]) =
         Inr ([], points)) \<and>
   [] \<in> fst ` set [([] :: string, [(1, 2 :: real) :: real point])]"
proof -
  let ?c = "Element ''Hash:item'' [] [hash ''Points'' [point_record ''1'' ''2'']]"
  have a: "map_of ([] :: (string \<times> string) list) ''Hash:key'' = None" by simp
  have h: "traverse_node sample_float sample_int real_div 1000 keyless_document [] =
             Inr [([], [([], [(1, 2)])])]"
    by (simp add: keyless_document_def sample_defs)
  have p: "parse_contours sample_float sample_int real_div (hash ''Contours'' [?c]) =
             Inr [([], [(1, 2)])]"
    by (simp add: sample_defs)
  have m: "?c \<in> set (element_children (hash ''Contours'' [?c]))"
    by (simp add: hash_def keep_element_nodes_def)
  from missing_key_is_empty_name[OF a, of "''Hash:item''"
         "[hash ''Points'' [point_record ''1'' ''2'']]" sample_float sample_int real_div]
  have "hash_key ?c = [] \<and>
        (\<forall>node contours.
            parse_contours sample_float sample_int real_div node = Inr contours \<and>
            ?c \<in> set (element_children node) \<longrightarrow>
            (\<exists>points. parse_contour sample_float sample_int real_div ?c = Inr ([], points)) \<and>
            [] \<in> fst ` set contours)"
    by blast
  with p m have "hash_key ?c = [] \<and>
        (\<exists>points. parse_contour sample_float sample_int real_div ?c = Inr ([], points)) \<and>
        [] \<in> fst ` set [([] :: string, [(1, 2 :: real) :: real point])]"
    by blast
  with a h show ?thesis by blast
qed

text \<open>
  C10. When a contour has two or more children keyed SubpixelResolution, its points are
  divided by the integer of the last of them in document order.
\<close>

theorem last_resolution_is_applied:
  assumes "parse_contour pyfloat pyint npdiv child = Inr (name, contour)"
    and "filter (\<lambda>c. hash_key c = ''SubpixelResolution'') (element_children child) =
           resolutions"
    and "2 \<le> length resolutions"
  shows "\<exists>raw s.
           resolution pyint (last resolutions) = Inr s \<and>
           map (parse_point pyfloat) (point_records child) = map Inr raw \<and>
           contour = map (\<lambda>(x, y). (npdiv x s, npdiv y s)) raw"
proof -
  from parse_contour_Inr[OF assms(1)] obtain raw s where
    raw: "map (parse_point pyfloat) (point_records child) = map Inr raw"
    and s: "scale_factor pyint child = Inr s"
    and contour: "contour = scale npdiv raw s"
    by blast
  from assms(3) obtain r rs where "resolutions = r # rs" by (cases resolutions) auto
  with s assms(2) have "resolution pyint (last resolutions) = Inr s"
    by (simp add: scale_factor_def)
  with raw contour show ?thesis by (auto simp: scale_def)
qed

theorem last_resolution_is_applied_witness:
  "parse_contour sample_float sample_int real_div two_resolutions = Inr (''c'', [(2, 4)]) \<and>
   filter (\<lambda>c. hash_key c = ''SubpixelResolution'') (element_children two_resolutions) =
     [hash ''SubpixelResolution'' [Text ''2''], hash ''SubpixelResolution'' [Text ''5'']] \<and>
   resolution sample_int (hash ''SubpixelResolution'' [Text ''2'']) = Inr 2 \<and>
   resolution sample_int
     (last [hash ''SubpixelResolution'' [Text ''2''],
            hash ''SubpixelResolution'' [Text ''5'']]) = Inr 5 \<and>
   map (parse_point sample_float) (point_records two_resolutions) = map Inr [(10, 20)]"
proof -
  have h: "parse_contour sample_float sample_int real_div two_resolutions =
             Inr (''c'', [(2, 4)])"
    by (simp add: two_resolutions_def sample_defs)
  have f: "filter (\<lambda>c. hash_key c = ''SubpixelResolution'')
             (element_children two_resolutions) =
     [hash ''SubpixelResolution'' [Text ''2''], hash ''SubpixelResolution'' [Text ''5'']]"
    by (simp add: two_resolutions_def hash_def point_record_def keep_element_nodes_def)
  have l: "(2::nat) \<le> length [hash ''SubpixelResolution'' [Text ''2''],
                               hash ''SubpixelResolution'' [Text ''5'']]"
    by simp
  have r2: "resolution sample_int (hash ''SubpixelResolution'' [Text ''2'']) = Inr 2"
    by (simp add: sample_defs)
  have r5: "resolution sample_int (hash ''SubpixelResolution'' [Text ''5'']) = Inr 5"
    by (simp add: sample_defs)
  have p: "map (parse_point sample_float) (point_records two_resolutions) =
             map Inr [(10, 20)]"
    by (simp add: two_resolutions_def point_records_def sample_defs)
  from last_resolution_is_applied[OF h f l] obtain raw s where
    "resolution sample_int
       (last [hash ''SubpixelResolution'' [Text ''2''],
              hash ''SubpixelResolution'' [Text ''5'']]) = Inr s"
    by blast
  with r5 have "resolution sample_int
       (last [hash ''SubpixelResolution'' [Text ''2''],
              hash ''SubpixelResolution'' [Text ''5'']]) = Inr 5"
    by simp
  with h f r2 p show ?thesis by blast
qed

end
